theory Spec2Isabelle
  imports Main "HOL-Library.AList" "HOL-Library.Sublist"
begin

section \<open>Python values\<close>

text \<open>
  The client (\<^verbatim>\<open>scripts/forum_api.py\<close>) passes decoded JSON around as untyped Python
  values: the configuration file, GraphQL variables, request payloads and response bodies.
  A dictionary is an association list, so the insertion order Python keeps is kept. Python's
  \<^verbatim>\<open>None\<close> is \<open>JNull\<close>. Numbers are integers (the client never computes with a
  number it receives). A \<open>string\<close> is a list of code points below 256.
\<close>

datatype json =
    JNull
  | JBool bool
  | JNum int
  | JStr string
  | JArr "json list"
  | JObj "(string \<times> json) list"

text \<open>
  Every exception the modelled functions can raise. \<open>Exception\<close> and \<open>ValueError\<close> carry
  their message. \<open>GraphQLErrors v\<close> is \<^verbatim>\<open>Exception(f"GraphQL errors: {v}")\<close>, kept
  with the value instead of its \<^verbatim>\<open>repr\<close>. \<open>HTTPError\<close> is what
  \<^verbatim>\<open>raise_for_status\<close> raises, \<open>ConnectionError\<close> a request that got no response,
  \<open>JSONDecodeError\<close> a body or file that is not JSON.
\<close>

datatype error =
    ValueError string
  | Exception string
  | GraphQLErrors json
  | HTTPError nat
  | ConnectionError
  | JSONDecodeError
  | TypeError
  | AttributeError
  | KeyError string

text \<open>Truth value of a Python object, as \<^verbatim>\<open>if x:\<close> tests it.\<close>

fun truthy :: "json \<Rightarrow> bool" where
  "truthy JNull = False"
| "truthy (JBool b) = b"
| "truthy (JNum n) = (n \<noteq> 0)"
| "truthy (JStr s) = (s \<noteq> [])"
| "truthy (JArr xs) = (xs \<noteq> [])"
| "truthy (JObj kvs) = (kvs \<noteq> [])"

text \<open>\<^verbatim>\<open>needle in haystack\<close> on strings: a contiguous occurrence.\<close>

fun str_contains :: "string \<Rightarrow> string \<Rightarrow> bool" where
  "str_contains needle [] = (needle = [])"
| "str_contains needle (c # cs) = (prefix needle (c # cs) \<or> str_contains needle cs)"

text \<open>\<^verbatim>\<open>d.get(k, default)\<close>: only a dictionary has the method.\<close>

fun py_get :: "json \<Rightarrow> string \<Rightarrow> json \<Rightarrow> error + json" where
  "py_get (JObj kvs) k dflt = (case map_of kvs k of Some v \<Rightarrow> Inr v | None \<Rightarrow> Inr dflt)"
| "py_get _ k dflt = Inl AttributeError"

text \<open>\<^verbatim>\<open>d[k]\<close> with a string key.\<close>

fun py_index :: "json \<Rightarrow> string \<Rightarrow> error + json" where
  "py_index (JObj kvs) k = (case map_of kvs k of Some v \<Rightarrow> Inr v | None \<Rightarrow> Inl (KeyError k))"
| "py_index _ k = Inl TypeError"

text \<open>\<^verbatim>\<open>k in d\<close> with a string \<open>k\<close>: key of a dictionary, element of a list, substring of a string.\<close>

fun py_contains :: "string \<Rightarrow> json \<Rightarrow> error + bool" where
  "py_contains k (JObj kvs) = Inr (k \<in> set (map fst kvs))"
| "py_contains k (JArr xs) = Inr (JStr k \<in> set xs)"
| "py_contains k (JStr s) = Inr (str_contains k s)"
| "py_contains k _ = Inl TypeError"

text \<open>\<^verbatim>\<open>d[k] = v\<close>: an existing key keeps its place, a new one goes last.\<close>

fun py_setitem :: "json \<Rightarrow> string \<Rightarrow> json \<Rightarrow> error + json" where
  "py_setitem (JObj kvs) k v = Inr (JObj (AList.update k v kvs))"
| "py_setitem _ k v = Inl TypeError"

text \<open>\<^verbatim>\<open>for x in v\<close>: the elements of a list, the keys of a dictionary, the characters of a string.\<close>

fun py_iter :: "json \<Rightarrow> error + json list" where
  "py_iter (JArr xs) = Inr xs"
| "py_iter (JObj kvs) = Inr (map (\<lambda>kv. JStr (fst kv)) kvs)"
| "py_iter (JStr s) = Inr (map (\<lambda>c. JStr [c]) s)"
| "py_iter _ = Inl TypeError"

section \<open>Strings\<close>

text \<open>
  \<^verbatim>\<open>str.lower\<close> on a string of code points below 256, where it works character by
  character: A-Z and the Latin-1 capitals move up by 32. It is used for forum names only.
  On other text \<^verbatim>\<open>str.lower\<close> is not a character-wise map (a capital sigma is
  lower-cased by its place in the word), so the tag search below, which lower-cases names
  sent by the server, takes \<^verbatim>\<open>str.lower\<close> as a parameter.
\<close>

definition lower_char :: "char \<Rightarrow> char" where
  "lower_char c = (let n = (of_char c :: nat) in
     if (65 \<le> n \<and> n \<le> 90) \<or> (192 \<le> n \<and> n \<le> 222 \<and> n \<noteq> 215)
     then char_of (n + 32) else c)"

definition lower :: "string \<Rightarrow> string" where
  "lower s = map lower_char s"

text \<open>\<^verbatim>\<open>str.isspace\<close> on code points below 256, and \<^verbatim>\<open>str.strip()\<close>.\<close>

definition is_space :: "char \<Rightarrow> bool" where
  "is_space c = (let n = (of_char c :: nat) in
     (9 \<le> n \<and> n \<le> 13) \<or> (28 \<le> n \<and> n \<le> 32) \<or> n = 133 \<or> n = 160)"

definition strip :: "string \<Rightarrow> string" where
  "strip s = rev (dropWhile is_space (rev (dropWhile is_space s)))"

text \<open>\<^verbatim>\<open>sep.join(parts)\<close>.\<close>

fun join :: "string \<Rightarrow> string list \<Rightarrow> string" where
  "join sep [] = []"
| "join sep [x] = x"
| "join sep (x # y # ys) = x @ sep @ join sep (y # ys)"

section \<open>Forum registry\<close>

record forum_config =
  name :: string
  url :: string
  base_url :: string
  aliases :: "string list"

definition FORUMS :: "(string \<times> forum_config) list" where
  "FORUMS =
    [(''lesswrong'',
        \<lparr>name = ''LessWrong'',
         url = ''https://www.lesswrong.com/graphql'',
         base_url = ''https://www.lesswrong.com'',
         aliases = [''lw'', ''less-wrong'']\<rparr>),
     (''eaforum'',
        \<lparr>name = ''EA Forum'',
         url = ''https://forum.effectivealtruism.org/graphql'',
         base_url = ''https://forum.effectivealtruism.org'',
         aliases = [''ea'', ''effective-altruism'', ''ea-forum'']\<rparr>),
     (''alignmentforum'',
        \<lparr>name = ''Alignment Forum'',
         url = ''https://www.alignmentforum.org/graphql'',
         base_url = ''https://www.alignmentforum.org'',
         aliases = [''af'', ''alignment'', ''alignment-forum'']\<rparr>)]"

text \<open>
  \<^verbatim>\<open>resolve_forum\<close>: lower-case and strip the input, try the keys, then the aliases of
  each forum in registry order, else raise \<^verbatim>\<open>ValueError\<close>.
\<close>

definition resolve_forum :: "string \<Rightarrow> error + string" where
  "resolve_forum forum_input0 =
     (let forum_input = strip (lower forum_input0) in
      if forum_input \<in> set (map fst FORUMS) then Inr forum_input
      else case find (\<lambda>kc. forum_input \<in> set (aliases (snd kc))) FORUMS of
             Some kc \<Rightarrow> Inr (fst kc)
           | None \<Rightarrow> Inl (ValueError (''Unknown forum: '' @ forum_input @
                         ''. Valid options: '' @ join '', '' (map fst FORUMS))))"

definition get_forum_url :: "string \<Rightarrow> error + string" where
  "get_forum_url forum =
     (case resolve_forum forum of
        Inl e \<Rightarrow> Inl e
      | Inr forum_key \<Rightarrow>
          (case map_of FORUMS forum_key of
             Some c \<Rightarrow> Inr (url c)
           | None \<Rightarrow> Inl (KeyError forum_key)))"

section \<open>The outside world\<close>

text \<open>
  What the functions read and change outside themselves: the configuration file
  \<^verbatim>\<open>config.json\<close> (absent, not JSON, or a decoded value) and the network. A request is
  one \<^verbatim>\<open>requests.post\<close> call: the URL, the JSON payload and the cookies. The network
  answers a request with a response or not at all. \<open>posted\<close> records the requests issued
  so far, oldest first.
\<close>

datatype file_state = Missing | Unparsable | Content json

record request =
  req_url :: string
  req_json :: json
  req_cookies :: "(string \<times> json) list"

record response =
  status_code :: nat
  json_body :: "json option"

record world =
  config_file :: file_state
  network :: "request \<Rightarrow> response option"
  posted :: "request list"

definition load_config :: "world \<Rightarrow> error + json" where
  "load_config w =
     (case config_file w of
        Missing \<Rightarrow> Inr (JObj [(''subscriptions'', JArr []),
                             (''digest_days'', JNum 7),
                             (''output_dir'', JStr ''digests'')])
      | Unparsable \<Rightarrow> Inl JSONDecodeError
      | Content j \<Rightarrow> Inr j)"

section \<open>Request dispatch\<close>

text \<open>
  The part the two dispatchers share after the URL is known: build the payload, post it,
  \<^verbatim>\<open>raise_for_status\<close> (which raises for a status from 400 to 599), decode the body,
  raise when it has \<^verbatim>\<open>errors\<close>, return \<^verbatim>\<open>data.get("data", {})\<close>.
\<close>

definition build_payload :: "string \<Rightarrow> json \<Rightarrow> json" where
  "build_payload query variables =
     JObj ((''query'', JStr query) #
           (if truthy variables then [(''variables'', variables)] else []))"

definition unwrap_response :: "response \<Rightarrow> error + json" where
  "unwrap_response r =
     (if 400 \<le> status_code r \<and> status_code r < 600 then Inl (HTTPError (status_code r))
      else case json_body r of
             None \<Rightarrow> Inl JSONDecodeError
           | Some data \<Rightarrow>
               (case py_contains ''errors'' data of
                  Inl e \<Rightarrow> Inl e
                | Inr has_errors \<Rightarrow>
                    if has_errors
                    then (case py_index data ''errors'' of
                            Inl e \<Rightarrow> Inl e
                          | Inr errs \<Rightarrow> Inl (GraphQLErrors errs))
                    else py_get data ''data'' (JObj [])))"

definition post_request :: "request \<Rightarrow> world \<Rightarrow> (error + json) \<times> world" where
  "post_request req w =
     (let w' = w\<lparr>posted := posted w @ [req]\<rparr> in
      case network w req of
        None \<Rightarrow> (Inl ConnectionError, w')
      | Some r \<Rightarrow> (unwrap_response r, w'))"

definition graphql_query :: "string \<Rightarrow> json \<Rightarrow> string \<Rightarrow> world \<Rightarrow> (error + json) \<times> world" where
  "graphql_query query variables forum w =
     (case get_forum_url forum of
        Inl e \<Rightarrow> (Inl e, w)
      | Inr u \<Rightarrow>
          post_request \<lparr>req_url = u, req_json = build_payload query variables,
                        req_cookies = []\<rparr> w)"

definition get_auth_token :: "string \<Rightarrow> world \<Rightarrow> error + json" where
  "get_auth_token forum w =
     (case load_config w of
        Inl e \<Rightarrow> Inl e
      | Inr config \<Rightarrow>
          (case py_get config ''auth'' (JObj []) of
             Inl e \<Rightarrow> Inl e
           | Inr auth \<Rightarrow>
               (case resolve_forum forum of
                  Inl e \<Rightarrow> Inl e
                | Inr forum_key \<Rightarrow>
                    py_get auth
                      (if forum_key = ''alignmentforum'' then ''lesswrong'' else forum_key)
                      JNull)))"

definition graphql_query_authenticated ::
  "string \<Rightarrow> json \<Rightarrow> string \<Rightarrow> world \<Rightarrow> (error + json) \<times> world" where
  "graphql_query_authenticated query variables forum w =
     (case get_auth_token forum w of
        Inl e \<Rightarrow> (Inl e, w)
      | Inr token \<Rightarrow>
          if \<not> truthy token
          then (Inl (Exception (''No auth token configured for '' @ forum @
                  ''. See 'set-token' command or add token to config.json.'')), w)
          else
            (case get_forum_url forum of
               Inl e \<Rightarrow> (Inl e, w)
             | Inr u \<Rightarrow>
                 post_request \<lparr>req_url = u, req_json = build_payload query variables,
                               req_cookies = [(''loginToken'', token)]\<rparr> w))"

text \<open>
  \<^verbatim>\<open>save_auth_token\<close>: load the configuration, add an empty \<^verbatim>\<open>auth\<close> when there is
  none, store the token under the folded key, write the whole configuration back.
\<close>

definition save_auth_token :: "string \<Rightarrow> string \<Rightarrow> world \<Rightarrow> (error + string) \<times> world" where
  "save_auth_token forum token w =
     (case load_config w of
        Inl e \<Rightarrow> (Inl e, w)
      | Inr config0 \<Rightarrow>
          (case py_contains ''auth'' config0 of
             Inl e \<Rightarrow> (Inl e, w)
           | Inr has_auth \<Rightarrow>
               (case (if has_auth then Inr config0 else py_setitem config0 ''auth'' (JObj [])) of
                  Inl e \<Rightarrow> (Inl e, w)
                | Inr config1 \<Rightarrow>
                    (case resolve_forum forum of
                       Inl e \<Rightarrow> (Inl e, w)
                     | Inr forum_key0 \<Rightarrow>
                         (let forum_key =
                                (if forum_key0 = ''alignmentforum'' then ''lesswrong''
                                 else forum_key0)
                          in case py_index config1 ''auth'' of
                               Inl e \<Rightarrow> (Inl e, w)
                             | Inr auth \<Rightarrow>
                                 (case py_setitem auth forum_key (JStr token) of
                                    Inl e \<Rightarrow> (Inl e, w)
                                  | Inr auth' \<Rightarrow>
                                      (case py_setitem config1 ''auth'' auth' of
                                         Inl e \<Rightarrow> (Inl e, w)
                                       | Inr config2 \<Rightarrow>
                                           (Inr forum_key,
                                            w\<lparr>config_file := Content config2\<rparr>))))))))"

section \<open>GraphQL documents\<close>

text \<open>The query texts of the functions below, with runs of white space written as one space.\<close>

definition GetPostById_query :: string where
  \<open>GetPostById_query =
    ''query GetPostById($documentId: String!) { post(input: { selector: { documentId: $documentId } }) { result { _id title slug pageUrl postedAt baseScore voteCount commentCount user { displayName slug } contents { markdown } } } }''\<close>

definition SearchBySlug_query :: string where
  \<open>SearchBySlug_query =
    ''query SearchBySlug($limit: Int) { posts(input: { terms: { limit: $limit } }) { results { _id title slug pageUrl postedAt baseScore voteCount commentCount user { displayName slug } contents { markdown } } } }''\<close>

definition CreatePost_mutation :: string where
  \<open>CreatePost_mutation =
    ''mutation CreatePost($data: CreatePostDataInput!) { createPost(data: $data) { data { _id title slug pageUrl draft } } }''\<close>

definition GetUserPosts_query :: string where
  \<open>GetUserPosts_query =
    ''query GetUserPosts($userId: String!, $limit: Int) { posts(input: { terms: { view: "userPosts", userId: $userId, limit: $limit } }) { results { _id title slug pageUrl postedAt baseScore voteCount commentCount contents { markdown } } } }''\<close>

definition GetUserComments_query :: string where
  \<open>GetUserComments_query =
    ''query GetUserComments($userId: String!, $limit: Int) { comments(input: { terms: { view: "profileComments", userId: $userId, limit: $limit } }) { results { _id postedAt pageUrl baseScore voteCount post { _id title slug } contents { markdown plaintextDescription } } } }''\<close>


definition GetTagPosts_query :: string where
  \<open>GetTagPosts_query =
    ''query GetTagPosts($tagId: String!, $limit: Int) { posts(input: { terms: { view: "tagRelevance", tagId: $tagId, limit: $limit } }) { results { _id title slug pageUrl postedAt baseScore voteCount commentCount user { displayName slug } contents { markdown } } } }''\<close>

text \<open>\<^verbatim>\<open>data.get(k, {}).get("results", [])\<close>.\<close>

definition results_of :: "json \<Rightarrow> string \<Rightarrow> error + json" where
  "results_of data k =
     (case py_get data k (JObj []) of
        Inl e \<Rightarrow> Inl e
      | Inr d \<Rightarrow> py_get d ''results'' (JArr []))"

section \<open>Post lookup\<close>

text \<open>
  \<^verbatim>\<open>re.search(r'/posts/([a-zA-Z0-9]+)/', identifier)\<close>. The pattern at one position:
  the literal, then the longest run of letters and digits, which must be non-empty and
  followed by a slash (a shorter run would be followed by a letter or digit, so backtracking
  finds nothing more). \<open>url_match\<close> tries the positions from the left and gives group 1.
\<close>

definition is_alnum :: "char \<Rightarrow> bool" where
  "is_alnum c = (let n = (of_char c :: nat) in
     (48 \<le> n \<and> n \<le> 57) \<or> (65 \<le> n \<and> n \<le> 90) \<or> (97 \<le> n \<and> n \<le> 122))"

definition match_here :: "string \<Rightarrow> string option" where
  "match_here s =
     (if prefix ''/posts/'' s
      then (let rest = drop 7 s; run = takeWhile is_alnum rest
            in case dropWhile is_alnum rest of
                 [] \<Rightarrow> None
               | c # _ \<Rightarrow> if run \<noteq> [] \<and> c = CHR ''/'' then Some run else None)
      else None)"

fun url_match :: "string \<Rightarrow> string option" where
  "url_match [] = None"
| "url_match (c # cs) =
     (case match_here (c # cs) of Some g \<Rightarrow> Some g | None \<Rightarrow> url_match cs)"

text \<open>
  \<^verbatim>\<open>re.match(r'^[a-zA-Z0-9]{17}$', identifier)\<close>: seventeen letters or digits, then the
  end of the string or one final newline (which \<^verbatim>\<open>$\<close> allows).
\<close>

definition looks_like_post_id :: "string \<Rightarrow> bool" where
  "looks_like_post_id s =
     (17 \<le> length s \<and> list_all is_alnum (take 17 s) \<and>
      (drop 17 s = [] \<or> drop 17 s = [CHR 0x0A]))"

text \<open>\<^verbatim>\<open>s.split(d)\<close> for a one-character separator; the result is never empty.\<close>

fun split_char :: "char \<Rightarrow> string \<Rightarrow> string list" where
  "split_char d [] = [[]]"
| "split_char d (c # cs) =
     (if c = d then [] # split_char d cs
      else case split_char d cs of
             x # xs \<Rightarrow> (c # x) # xs
           | [] \<Rightarrow> [[c]])"

text \<open>The loop over the fetched posts: the first one whose \<^verbatim>\<open>slug\<close> equals the slug.\<close>

fun find_slug :: "string \<Rightarrow> json list \<Rightarrow> error + json option" where
  "find_slug slug [] = Inr None"
| "find_slug slug (post # posts) =
     (case py_get post ''slug'' JNull of
        Inl e \<Rightarrow> Inl e
      | Inr v \<Rightarrow> if v = JStr slug then Inr (Some post) else find_slug slug posts)"

text \<open>Lines 219 to 246: the query by ID, giving \<^verbatim>\<open>data.get("post", {}).get("result")\<close>.\<close>

definition lookup_by_id :: "string \<Rightarrow> string \<Rightarrow> world \<Rightarrow> (error + json) \<times> world" where
  "lookup_by_id post_id forum w =
     (case graphql_query GetPostById_query (JObj [(''documentId'', JStr post_id)]) forum w of
        (Inl e, w') \<Rightarrow> (Inl e, w')
      | (Inr data, w') \<Rightarrow>
          (case py_get data ''post'' (JObj []) of
             Inl e \<Rightarrow> (Inl e, w')
           | Inr p \<Rightarrow>
               (case py_get p ''result'' JNull of
                  Inl e \<Rightarrow> (Inl e, w')
                | Inr post \<Rightarrow> (Inr post, w'))))"

text \<open>Lines 248 to 287: the search by slug.\<close>

definition search_by_slug :: "string \<Rightarrow> string \<Rightarrow> world \<Rightarrow> (error + json) \<times> world" where
  "search_by_slug identifier forum w =
     (let slug = last (split_char CHR ''/'' identifier)
      in case graphql_query SearchBySlug_query (JObj [(''limit'', JNum 1000)]) forum w of
           (Inl e, w') \<Rightarrow> (Inl e, w')
         | (Inr data, w') \<Rightarrow>
             (case results_of data ''posts'' of
                Inl e \<Rightarrow> (Inl e, w')
              | Inr posts \<Rightarrow>
                  (case py_iter posts of
                     Inl e \<Rightarrow> (Inl e, w')
                   | Inr ps \<Rightarrow>
                       (case find_slug slug ps of
                          Inl e \<Rightarrow> (Inl e, w')
                        | Inr (Some post) \<Rightarrow> (Inr post, w')
                        | Inr None \<Rightarrow>
                            (Inl (Exception (''Post not found: '' @ identifier)), w')))))"

definition get_post_by_slug :: "string \<Rightarrow> string \<Rightarrow> world \<Rightarrow> (error + json) \<times> world" where
  "get_post_by_slug identifier forum w =
     (let post_id =
            (case url_match identifier of
               Some g \<Rightarrow> Some g
             | None \<Rightarrow> if looks_like_post_id identifier then Some identifier else None)
      in case post_id of
           None \<Rightarrow> search_by_slug identifier forum w
         | Some pid \<Rightarrow>
             if pid = [] then search_by_slug identifier forum w
             else
               (case lookup_by_id pid forum w of
                  (Inl e, w') \<Rightarrow> (Inl e, w')
                | (Inr post, w') \<Rightarrow>
                    if truthy post then (Inr post, w')
                    else search_by_slug identifier forum w'))"

section \<open>Drafts\<close>

text \<open>
  Lines 354 to 371: the variables of the mutation. \<^verbatim>\<open>url\<close> is \<^verbatim>\<open>None\<close> or a string,
  added when it is not empty.
\<close>

definition create_draft_variables :: "string \<Rightarrow> string \<Rightarrow> string option \<Rightarrow> bool \<Rightarrow> json" where
  "create_draft_variables title contents_markdown url_opt question =
     (let data0 =
            [(''title'', JStr title),
             (''contents'',
                JObj [(''originalContents'',
                         JObj [(''type'', JStr ''markdown''),
                               (''data'', JStr contents_markdown)])]),
             (''draft'', JBool True),
             (''submitToFrontpage'', JBool True)];
          data1 = (case url_opt of
                     None \<Rightarrow> data0
                   | Some u \<Rightarrow> if u \<noteq> [] then AList.update ''url'' (JStr u) data0 else data0);
          data2 = (if question then AList.update ''question'' (JBool True) data1 else data1)
      in JObj [(''data'', JObj data2)])"

definition create_draft_post ::
  "string \<Rightarrow> string \<Rightarrow> string \<Rightarrow> string option \<Rightarrow> bool \<Rightarrow> world \<Rightarrow> (error + json) \<times> world" where
  "create_draft_post title contents_markdown forum url_opt question w =
     (case graphql_query_authenticated CreatePost_mutation
             (create_draft_variables title contents_markdown url_opt question) forum w of
        (Inl e, w') \<Rightarrow> (Inl e, w')
      | (Inr data, w') \<Rightarrow>
          (case py_get data ''createPost'' (JObj []) of
             Inl e \<Rightarrow> (Inl e, w')
           | Inr cp \<Rightarrow>
               (case py_get cp ''data'' JNull of
                  Inl e \<Rightarrow> (Inl e, w')
                | Inr d \<Rightarrow> (Inr d, w'))))"

section \<open>Date filter\<close>

text \<open>
  A \<^verbatim>\<open>datetime\<close>: its position on the time line in microseconds, and whether it carries a
  time zone. Comparing one that does with one that does not raises \<^verbatim>\<open>TypeError\<close>.
  \<^verbatim>\<open>datetime.fromisoformat\<close> is a parameter \<open>fromiso\<close> of the functions that call it:
  \<open>None\<close> where it raises \<^verbatim>\<open>ValueError\<close>.
\<close>

record datetime =
  instant :: int
  aware :: bool

definition dt_ge :: "datetime \<Rightarrow> datetime \<Rightarrow> error + bool" where
  "dt_ge a b = (if aware a = aware b then Inr (instant b \<le> instant a) else Inl TypeError)"

text \<open>\<^verbatim>\<open>s.replace("Z", "+00:00")\<close>.\<close>

definition replace_Z :: "string \<Rightarrow> string" where
  "replace_Z s = concat (map (\<lambda>c. if c = CHR ''Z'' then ''+00:00'' else [c]) s)"

text \<open>\<^verbatim>\<open>datetime.fromisoformat(p["postedAt"].replace("Z", "+00:00"))\<close>.\<close>

definition posted_at :: "(string \<Rightarrow> datetime option) \<Rightarrow> json \<Rightarrow> error + datetime" where
  "posted_at fromiso p =
     (case py_index p ''postedAt'' of
        Inl e \<Rightarrow> Inl e
      | Inr (JStr s) \<Rightarrow>
          (case fromiso (replace_Z s) of
             None \<Rightarrow> Inl (ValueError ''Invalid isoformat string'')
           | Some dt \<Rightarrow> Inr dt)
      | Inr _ \<Rightarrow> Inl AttributeError)"

text \<open>The list comprehension \<^verbatim>\<open>[p for p in posts if posted_at(p) >= since_date]\<close>.\<close>

fun filter_since :: "(string \<Rightarrow> datetime option) \<Rightarrow> datetime \<Rightarrow> json list \<Rightarrow> error + json list" where
  "filter_since fromiso since_date [] = Inr []"
| "filter_since fromiso since_date (p # ps) =
     (case posted_at fromiso p of
        Inl e \<Rightarrow> Inl e
      | Inr dt \<Rightarrow>
          (case dt_ge dt since_date of
             Inl e \<Rightarrow> Inl e
           | Inr keep \<Rightarrow>
               (case filter_since fromiso since_date ps of
                  Inl e \<Rightarrow> Inl e
                | Inr r \<Rightarrow> Inr (if keep then p # r else r))))"

text \<open>The block \<^verbatim>\<open>if since_date: posts = [...]\<close>; a \<^verbatim>\<open>datetime\<close> is always true.\<close>

definition since_filter ::
  "(string \<Rightarrow> datetime option) \<Rightarrow> datetime option \<Rightarrow> json \<Rightarrow> error + json" where
  "since_filter fromiso since_date posts =
     (case since_date of
        None \<Rightarrow> Inr posts
      | Some since \<Rightarrow>
          (case py_iter posts of
             Inl e \<Rightarrow> Inl e
           | Inr ps \<Rightarrow>
               (case filter_since fromiso since ps of
                  Inl e \<Rightarrow> Inl e
                | Inr r \<Rightarrow> Inr (JArr r))))"

text \<open>The fetch the three functions share: the query, then \<open>results_of\<close>, then the filter.\<close>

definition fetch_since ::
  "(string \<Rightarrow> datetime option) \<Rightarrow> string \<Rightarrow> json \<Rightarrow> string \<Rightarrow> datetime option \<Rightarrow> string \<Rightarrow>
   world \<Rightarrow> (error + json) \<times> world" where
  "fetch_since fromiso query variables field since_date forum w =
     (case graphql_query query variables forum w of
        (Inl e, w') \<Rightarrow> (Inl e, w')
      | (Inr data, w') \<Rightarrow>
          (case results_of data field of
             Inl e \<Rightarrow> (Inl e, w')
           | Inr posts \<Rightarrow> (since_filter fromiso since_date posts, w')))"

definition get_user_posts ::
  "(string \<Rightarrow> datetime option) \<Rightarrow> json \<Rightarrow> datetime option \<Rightarrow> int \<Rightarrow> string \<Rightarrow>
   world \<Rightarrow> (error + json) \<times> world" where
  "get_user_posts fromiso user_id since_date limit forum w =
     fetch_since fromiso GetUserPosts_query
       (JObj [(''userId'', user_id), (''limit'', JNum limit)]) ''posts'' since_date forum w"

definition get_user_comments ::
  "(string \<Rightarrow> datetime option) \<Rightarrow> json \<Rightarrow> datetime option \<Rightarrow> int \<Rightarrow> string \<Rightarrow>
   world \<Rightarrow> (error + json) \<times> world" where
  "get_user_comments fromiso user_id since_date limit forum w =
     fetch_since fromiso GetUserComments_query
       (JObj [(''userId'', user_id), (''limit'', JNum limit)]) ''comments'' since_date forum w"

definition get_posts_by_tag ::
  "(string \<Rightarrow> datetime option) \<Rightarrow> json \<Rightarrow> datetime option \<Rightarrow> int \<Rightarrow> string \<Rightarrow>
   world \<Rightarrow> (error + json) \<times> world" where
  "get_posts_by_tag fromiso tag_id since_date limit forum w =
     fetch_since fromiso GetTagPosts_query
       (JObj [(''tagId'', tag_id), (''limit'', JNum limit)]) ''posts'' since_date forum w"

section \<open>Tag search\<close>




section \<open>Reading a nested value\<close>

text \<open>\<^verbatim>\<open>v[k1][k2]...\<close>, used to read a payload.\<close>

fun at_path :: "json \<Rightarrow> string list \<Rightarrow> error + json" where
  "at_path v [] = Inr v"
| "at_path v (k # ks) = (case py_index v k of Inl e \<Rightarrow> Inl e | Inr v' \<Rightarrow> at_path v' ks)"

section \<open>Properties of forum resolution\<close>

lemma lower_forum_names [simp]:
  "lower ''lesswrong'' = ''lesswrong''" "lower ''eaforum'' = ''eaforum''"
  "lower ''alignmentforum'' = ''alignmentforum''"
  "lower ''lw'' = ''lw''" "lower ''less-wrong'' = ''less-wrong''"
  "lower ''ea'' = ''ea''" "lower ''effective-altruism'' = ''effective-altruism''"
  "lower ''ea-forum'' = ''ea-forum''"
  "lower ''af'' = ''af''" "lower ''alignment'' = ''alignment''"
  "lower ''alignment-forum'' = ''alignment-forum''"
  by (simp_all add: lower_def lower_char_def)

lemma strip_forum_names [simp]:
  "strip ''lesswrong'' = ''lesswrong''" "strip ''eaforum'' = ''eaforum''"
  "strip ''alignmentforum'' = ''alignmentforum''"
  "strip ''lw'' = ''lw''" "strip ''less-wrong'' = ''less-wrong''"
  "strip ''ea'' = ''ea''" "strip ''effective-altruism'' = ''effective-altruism''"
  "strip ''ea-forum'' = ''ea-forum''"
  "strip ''af'' = ''af''" "strip ''alignment'' = ''alignment''"
  "strip ''alignment-forum'' = ''alignment-forum''"
  by (simp_all add: strip_def is_space_def)

lemma resolve_forum_canonical [simp]:
  "resolve_forum ''lesswrong'' = Inr ''lesswrong''"
  "resolve_forum ''alignmentforum'' = Inr ''alignmentforum''"
  "resolve_forum ''eaforum'' = Inr ''eaforum''"
  by (simp_all add: resolve_forum_def FORUMS_def)

text \<open>
  Claim C1. Forum resolution is case-insensitive and alias-complete: for every forum of the
  registry and every alias declared for it, the alias written in any letter case (\<open>s\<close>) and
  the canonical key written in any letter case (\<open>t\<close>) both resolve to the canonical key.
\<close>

theorem resolve_forum_alias_complete:
  assumes "(key, config) \<in> set FORUMS" and "a \<in> set (aliases config)"
    and "lower s = lower a" and "lower t = lower key"
  shows "resolve_forum s = Inr key \<and> resolve_forum t = Inr key"
  using assms
  by (auto simp: resolve_forum_def FORUMS_def)

theorem resolve_forum_alias_complete_witness:
  "resolve_forum ''LW'' = Inr ''lesswrong'' \<and> resolve_forum ''LessWrong'' = Inr ''lesswrong''"
proof -
  have 1: "(''lesswrong'', snd (hd FORUMS)) \<in> set FORUMS" by (simp add: FORUMS_def)
  have 2: "''lw'' \<in> set (aliases (snd (hd FORUMS)))" by (simp add: FORUMS_def)
  have 3: "lower ''LW'' = lower ''lw''" by code_simp
  have 4: "lower ''LessWrong'' = lower ''lesswrong''" by code_simp
  show ?thesis using resolve_forum_alias_complete [OF 1 2 3 4] .
qed

text \<open>
  Claim C7, as amended. For every input whose lower-cased and stripped form is neither a
  registered forum key nor a listed alias, \<open>resolve_forum\<close> fails with a \<^verbatim>\<open>ValueError\<close>
  whose message names the normalised input and lists the valid keys.
\<close>

theorem resolve_forum_unknown:
  assumes "strip (lower s) \<notin> set (map fst FORUMS)"
    and "strip (lower s) \<notin> (\<Union>kc \<in> set FORUMS. set (aliases (snd kc)))"
  shows "resolve_forum s = Inl (ValueError (''Unknown forum: '' @ strip (lower s) @
            ''. Valid options: lesswrong, eaforum, alignmentforum''))"
  using assms by (simp add: resolve_forum_def FORUMS_def)

theorem resolve_forum_unknown_witness:
  "resolve_forum ''reddit'' = Inl (ValueError
     ''Unknown forum: reddit. Valid options: lesswrong, eaforum, alignmentforum'')"
  using resolve_forum_unknown [of "''reddit''"]
  by (simp add: FORUMS_def lower_def lower_char_def strip_def is_space_def)

text \<open>
  Claim C7 as stated fails: the input \<open>'' lw''\<close> (with a leading space) equals neither a
  key nor a listed alias, and it resolves.
\<close>

theorem resolve_forum_unknown_counterexample:
  "'' lw'' \<notin> set (map fst FORUMS) \<and>
   '' lw'' \<notin> (\<Union>kc \<in> set FORUMS. set (aliases (snd kc))) \<and>
   resolve_forum '' lw'' = Inr ''lesswrong''"
  by code_simp

section \<open>Properties of the token store\<close>

lemma save_auth_token_result:
  assumes cfg: "load_config w = Inr (JObj kvs)"
    and auth: "(map_of kvs ''auth'' = None \<and> a = []) \<or> map_of kvs ''auth'' = Some (JObj a)"
    and key: "resolve_forum forum = Inr key"
  shows "save_auth_token forum t w =
           (Inr (if key = ''alignmentforum'' then ''lesswrong'' else key),
            w\<lparr>config_file := Content (JObj (AList.update ''auth''
                 (JObj (AList.update (if key = ''alignmentforum'' then ''lesswrong'' else key)
                          (JStr t) a)) kvs))\<rparr>)"
proof -
  from auth show ?thesis
  proof
    assume h: "map_of kvs ''auth'' = None \<and> a = []"
    then have "''auth'' \<notin> fst ` set kvs" by (simp add: map_of_eq_None_iff)
    with h show ?thesis
      by (simp add: save_auth_token_def cfg key Let_def update_conv')
  next
    assume h: "map_of kvs ''auth'' = Some (JObj a)"
    then have "''auth'' \<in> fst ` set kvs" by (metis map_of_eq_None_iff option.distinct(1))
    with h show ?thesis
      by (simp add: save_auth_token_def cfg key Let_def)
  qed
qed

text \<open>
  Claim C3. Storing and reading a token fold the forum key the same way. On a configuration
  that is a dictionary whose \<^verbatim>\<open>auth\<close> is absent or a dictionary (a missing file
  included), \<open>save_auth_token\<close> for \<^verbatim>\<open>alignmentforum\<close> succeeds and \<open>get_auth_token\<close> for
  \<^verbatim>\<open>lesswrong\<close> then returns the token, and the same with the two names exchanged.
\<close>

theorem token_roundtrip:
  assumes cfg: "load_config w = Inr (JObj kvs)"
    and auth: "map_of kvs ''auth'' = None \<or> (\<exists>a. map_of kvs ''auth'' = Some (JObj a))"
  shows "(\<exists>k w'. save_auth_token ''alignmentforum'' t w = (Inr k, w') \<and>
                 get_auth_token ''lesswrong'' w' = Inr (JStr t)) \<and>
         (\<exists>k w'. save_auth_token ''lesswrong'' t w = (Inr k, w') \<and>
                 get_auth_token ''alignmentforum'' w' = Inr (JStr t))"
proof -
  from auth obtain a where
    a: "(map_of kvs ''auth'' = None \<and> a = []) \<or> map_of kvs ''auth'' = Some (JObj a)"
    by blast
  have 1: "save_auth_token ''alignmentforum'' t w =
       (Inr ''lesswrong'', w\<lparr>config_file := Content (JObj (AList.update ''auth''
                 (JObj (AList.update ''lesswrong'' (JStr t) a)) kvs))\<rparr>)"
    using save_auth_token_result [OF cfg a, of "''alignmentforum''" "''alignmentforum''" t]
    by simp
  have 2: "save_auth_token ''lesswrong'' t w =
       (Inr ''lesswrong'', w\<lparr>config_file := Content (JObj (AList.update ''auth''
                 (JObj (AList.update ''lesswrong'' (JStr t) a)) kvs))\<rparr>)"
    using save_auth_token_result [OF cfg a, of "''lesswrong''" "''lesswrong''" t] by simp
  have g: "get_auth_token f (w\<lparr>config_file := Content (JObj (AList.update ''auth''
                 (JObj (AList.update ''lesswrong'' (JStr t) a)) kvs))\<rparr>) = Inr (JStr t)"
    if "f = ''lesswrong'' \<or> f = ''alignmentforum''" for f
    using that by (auto simp: get_auth_token_def load_config_def update_conv')
  show ?thesis using 1 2 g by simp
qed

theorem token_roundtrip_witness:
  "(\<exists>k w'. save_auth_token ''alignmentforum'' ''tok''
              \<lparr>config_file = Missing, network = (\<lambda>r. None), posted = []\<rparr> = (Inr k, w') \<and>
           get_auth_token ''lesswrong'' w' = Inr (JStr ''tok'')) \<and>
   (\<exists>k w'. save_auth_token ''lesswrong'' ''tok''
              \<lparr>config_file = Missing, network = (\<lambda>r. None), posted = []\<rparr> = (Inr k, w') \<and>
           get_auth_token ''alignmentforum'' w' = Inr (JStr ''tok''))"
  by (rule token_roundtrip [where kvs = "[(''subscriptions'', JArr []),
        (''digest_days'', JNum 7), (''output_dir'', JStr ''digests'')]"])
     (simp_all add: load_config_def)

text \<open>
  Claim C10. \<open>save_auth_token\<close> changes only the \<^verbatim>\<open>auth\<close> entry of the folded key. With
  \<open>kvs\<close> the loaded configuration and \<open>a\<close> its \<^verbatim>\<open>auth\<close> dictionary (empty when there is
  none), the call returns the folded key and writes a configuration \<open>kvs'\<close> in which every
  top-level field other than \<^verbatim>\<open>auth\<close> is as in \<open>kvs\<close>, every \<^verbatim>\<open>auth\<close> entry for another
  key is as in \<open>a\<close>, and the folded key holds the token; nothing but the file changes.
\<close>

theorem save_auth_token_frame:
  assumes cfg: "load_config w = Inr (JObj kvs)"
    and auth: "(map_of kvs ''auth'' = None \<and> a = []) \<or> map_of kvs ''auth'' = Some (JObj a)"
    and key: "resolve_forum forum = Inr key"
  shows "\<exists>kvs' a'. save_auth_token forum t w =
            (Inr (if key = ''alignmentforum'' then ''lesswrong'' else key),
             w\<lparr>config_file := Content (JObj kvs')\<rparr>) \<and>
          (\<forall>k. k \<noteq> ''auth'' \<longrightarrow> map_of kvs' k = map_of kvs k) \<and>
          map_of kvs' ''auth'' = Some (JObj a') \<and>
          (\<forall>k. k \<noteq> (if key = ''alignmentforum'' then ''lesswrong'' else key)
                \<longrightarrow> map_of a' k = map_of a k) \<and>
          map_of a' (if key = ''alignmentforum'' then ''lesswrong'' else key) = Some (JStr t)"
  using save_auth_token_result [OF cfg auth key, of t]
  by (auto simp: update_conv')

theorem save_auth_token_frame_witness:
  "\<exists>kvs' a'. save_auth_token ''af'' ''tok''
       \<lparr>config_file = Content (JObj [(''digest_days'', JNum 3),
            (''auth'', JObj [(''eaforum'', JStr ''e'')])]),
        network = (\<lambda>r. None), posted = []\<rparr> =
      (Inr ''lesswrong'',
       \<lparr>config_file = Content (JObj kvs'), network = (\<lambda>r. None), posted = []\<rparr>) \<and>
      map_of kvs' ''digest_days'' = Some (JNum 3) \<and>
      map_of kvs' ''auth'' = Some (JObj a') \<and>
      map_of a' ''eaforum'' = Some (JStr ''e'') \<and>
      map_of a' ''lesswrong'' = Some (JStr ''tok'')"
proof -
  have r: "resolve_forum ''af'' = Inr ''alignmentforum''" by code_simp
  have c: "load_config \<lparr>config_file = Content (JObj [(''digest_days'', JNum 3),
            (''auth'', JObj [(''eaforum'', JStr ''e'')])]),
        network = (\<lambda>r. None), posted = []\<rparr> =
      Inr (JObj [(''digest_days'', JNum 3), (''auth'', JObj [(''eaforum'', JStr ''e'')])])"
    by (simp add: load_config_def)
  have a: "(map_of [(''digest_days'', JNum 3), (''auth'', JObj [(''eaforum'', JStr ''e'')])]
              ''auth'' = None \<and> [(''eaforum'', JStr ''e'')] = []) \<or>
           map_of [(''digest_days'', JNum 3), (''auth'', JObj [(''eaforum'', JStr ''e'')])]
              ''auth'' = Some (JObj [(''eaforum'', JStr ''e'')])"
    by simp
  from save_auth_token_frame [OF c a r, of "''tok''"]
  obtain kvs' a' where
    "save_auth_token ''af'' ''tok''
       \<lparr>config_file = Content (JObj [(''digest_days'', JNum 3),
            (''auth'', JObj [(''eaforum'', JStr ''e'')])]),
        network = (\<lambda>r. None), posted = []\<rparr> =
      (Inr ''lesswrong'',
       \<lparr>config_file = Content (JObj kvs'), network = (\<lambda>r. None), posted = []\<rparr>)"
    and "\<forall>k. k \<noteq> ''auth'' \<longrightarrow> map_of kvs' k =
           map_of [(''digest_days'', JNum 3), (''auth'', JObj [(''eaforum'', JStr ''e'')])] k"
    and "map_of kvs' ''auth'' = Some (JObj a')"
    and "\<forall>k. k \<noteq> ''lesswrong'' \<longrightarrow> map_of a' k = map_of [(''eaforum'', JStr ''e'')] k"
    and "map_of a' ''lesswrong'' = Some (JStr ''tok'')"
    by auto
  then show ?thesis by (intro exI [of _ kvs'] exI [of _ a']) simp
qed

section \<open>Properties of request dispatch\<close>

text \<open>
  Claim C4. For a forum that resolves and has no stored token (the configuration has no
  \<^verbatim>\<open>auth\<close>, or its \<^verbatim>\<open>auth\<close> has no entry under the folded key),
  \<open>graphql_query_authenticated\<close> raises the "No auth token configured" exception and leaves
  the world as it was: no request is posted.
\<close>

theorem no_token_no_request:
  assumes key: "resolve_forum forum = Inr key"
    and cfg: "load_config w = Inr (JObj kvs)"
    and auth: "map_of kvs ''auth'' = None \<or>
               (\<exists>a. map_of kvs ''auth'' = Some (JObj a) \<and>
                    map_of a (if key = ''alignmentforum'' then ''lesswrong'' else key) = None)"
  shows "graphql_query_authenticated query variables forum w =
           (Inl (Exception (''No auth token configured for '' @ forum @
                   ''. See 'set-token' command or add token to config.json.'')), w)"
  using auth
  by (auto simp: graphql_query_authenticated_def get_auth_token_def cfg key)

theorem no_token_no_request_witness:
  "graphql_query_authenticated ''q'' JNull ''ea''
      \<lparr>config_file = Content (JObj [(''auth'', JObj [(''lesswrong'', JStr ''t'')])]),
       network = (\<lambda>r. Some \<lparr>status_code = 200, json_body = Some (JObj [])\<rparr>), posted = []\<rparr> =
     (Inl (Exception ''No auth token configured for ea. See 'set-token' command or add token to config.json.''),
      \<lparr>config_file = Content (JObj [(''auth'', JObj [(''lesswrong'', JStr ''t'')])]),
       network = (\<lambda>r. Some \<lparr>status_code = 200, json_body = Some (JObj [])\<rparr>), posted = []\<rparr>)"
proof -
  have r: "resolve_forum ''ea'' = Inr ''eaforum''" by code_simp
  show ?thesis
    using no_token_no_request [OF r, where kvs = "[(''auth'', JObj [(''lesswrong'', JStr ''t'')])]"
       and w = "\<lparr>config_file = Content (JObj [(''auth'', JObj [(''lesswrong'', JStr ''t'')])]),
       network = (\<lambda>r. Some \<lparr>status_code = 200, json_body = Some (JObj [])\<rparr>), posted = []\<rparr>"
       and query = "''q''" and variables = JNull]
    by (simp add: load_config_def)
qed

lemma unwrap_response_object:
  assumes "json_body r = Some (JObj kvs)"
  shows "unwrap_response r =
     (if 400 \<le> status_code r \<and> status_code r < 600 then Inl (HTTPError (status_code r))
      else case map_of kvs ''errors'' of
             Some errs \<Rightarrow> Inl (GraphQLErrors errs)
           | None \<Rightarrow> Inr (case map_of kvs ''data'' of Some d \<Rightarrow> d | None \<Rightarrow> JObj []))"
proof (cases "map_of kvs ''errors''")
  case None
  then have "''errors'' \<notin> fst ` set kvs" by (simp add: map_of_eq_None_iff)
  with None assms show ?thesis
    by (simp add: unwrap_response_def split: option.splits)
next
  case (Some errs)
  then have "''errors'' \<in> fst ` set kvs" by (metis map_of_eq_None_iff option.distinct(1))
  with Some assms show ?thesis
    by (simp add: unwrap_response_def)
qed

text \<open>
  Claim C2, as amended. For a forum that resolves, when the request is answered with a body
  that is a JSON object, \<open>graphql_query\<close> posts exactly one request, without cookies; it
  raises exactly when the status is from 400 to 599 or the body has an \<^verbatim>\<open>errors\<close> key
  (whatever its value); otherwise it returns the body's \<^verbatim>\<open>data\<close>, or an empty
  dictionary when there is none.
\<close>

theorem graphql_query_raises_iff:
  assumes u: "get_forum_url forum = Inr u"
    and net: "network w \<lparr>req_url = u, req_json = build_payload query variables,
                          req_cookies = []\<rparr> = Some r"
    and body: "json_body r = Some (JObj kvs)"
  shows "posted (snd (graphql_query query variables forum w)) =
           posted w @ [\<lparr>req_url = u, req_json = build_payload query variables,
                        req_cookies = []\<rparr>] \<and>
         (isl (fst (graphql_query query variables forum w)) \<longleftrightarrow>
            (400 \<le> status_code r \<and> status_code r < 600) \<or> ''errors'' \<in> fst ` set kvs) \<and>
         (\<not> isl (fst (graphql_query query variables forum w)) \<longrightarrow>
            fst (graphql_query query variables forum w) =
              Inr (case map_of kvs ''data'' of Some d \<Rightarrow> d | None \<Rightarrow> JObj []))"
proof -
  have q: "graphql_query query variables forum w =
      (unwrap_response r, w\<lparr>posted := posted w @ [\<lparr>req_url = u,
          req_json = build_payload query variables, req_cookies = []\<rparr>]\<rparr>)"
    by (simp add: graphql_query_def u post_request_def net Let_def)
  have e: "''errors'' \<in> fst ` set kvs \<longleftrightarrow> map_of kvs ''errors'' \<noteq> None"
    by (simp add: map_of_eq_None_iff)
  show ?thesis
    unfolding q e unwrap_response_object [OF body]
    by (auto split: option.splits)
qed

theorem graphql_query_raises_iff_witness:
  "(let w = \<lparr>config_file = Missing,
             network = (\<lambda>r. Some \<lparr>status_code = 200,
                          json_body = Some (JObj [(''data'', JObj [(''x'', JNum 1)])])\<rparr>),
             posted = []\<rparr>
    in posted (snd (graphql_query ''q'' JNull ''lw'' w)) =
         [\<lparr>req_url = ''https://www.lesswrong.com/graphql'',
           req_json = JObj [(''query'', JStr ''q'')], req_cookies = []\<rparr>] \<and>
       fst (graphql_query ''q'' JNull ''lw'' w) = Inr (JObj [(''x'', JNum 1)]))"
proof -
  have u: "get_forum_url ''lw'' = Inr ''https://www.lesswrong.com/graphql''" by code_simp
  show ?thesis
    using graphql_query_raises_iff [OF u, where query = "''q''" and variables = JNull
      and w = "\<lparr>config_file = Missing,
             network = (\<lambda>r. Some \<lparr>status_code = 200,
                          json_body = Some (JObj [(''data'', JObj [(''x'', JNum 1)])])\<rparr>),
             posted = []\<rparr>"
      and r = "\<lparr>status_code = 200,
                          json_body = Some (JObj [(''data'', JObj [(''x'', JNum 1)])])\<rparr>"
      and kvs = "[(''data'', JObj [(''x'', JNum 1)])]"]
    by (simp add: build_payload_def Let_def)
qed

text \<open>
  Claim C2 as stated fails in both directions of "exactly when": a 200 response whose
  \<^verbatim>\<open>errors\<close> is the empty list raises, and a 300 response without \<^verbatim>\<open>errors\<close>
  returns its \<^verbatim>\<open>data\<close>.
\<close>

theorem graphql_query_raises_counterexample:
  "(let r = \<lparr>status_code = 200,
             json_body = Some (JObj [(''errors'', JArr []), (''data'', JObj [])])\<rparr>;
        w = \<lparr>config_file = Missing, network = (\<lambda>q. Some r), posted = []\<rparr>
    in fst (graphql_query ''q'' JNull ''lesswrong'' w) = Inl (GraphQLErrors (JArr []))) \<and>
   (let r = \<lparr>status_code = 300, json_body = Some (JObj [(''data'', JObj [])])\<rparr>;
        w = \<lparr>config_file = Missing, network = (\<lambda>q. Some r), posted = []\<rparr>
    in fst (graphql_query ''q'' JNull ''lesswrong'' w) = Inr (JObj []))"
  by code_simp

section \<open>Properties of draft creation\<close>

lemma create_draft_variables_data:
  "\<exists>kvs. create_draft_variables title md url_opt question = JObj [(''data'', JObj kvs)] \<and>
         map_of kvs ''draft'' = Some (JBool True) \<and>
         map_of kvs ''submitToFrontpage'' = Some (JBool True) \<and>
         map_of kvs ''contents'' = Some (JObj [(''originalContents'',
             JObj [(''type'', JStr ''markdown''), (''data'', JStr md)])])"
  by (cases url_opt) (simp_all add: create_draft_variables_def Let_def update_conv')

lemma snd_create_draft_post:
  "snd (create_draft_post title md forum url_opt question w) =
   snd (graphql_query_authenticated CreatePost_mutation
          (create_draft_variables title md url_opt question) forum w)"
  by (simp add: create_draft_post_def split: prod.splits sum.splits)

text \<open>
  Claim C8. \<open>create_draft_post\<close> with a title and markdown content, for a forum that
  resolves and has a token, posts one request whose payload carries variables with
  \<^verbatim>\<open>data.draft\<close> true, \<^verbatim>\<open>data.submitToFrontpage\<close> true, the \<^verbatim>\<open>markdown\<close> type and
  the markdown string unchanged at \<^verbatim>\<open>data.contents.originalContents.data\<close>, whatever the
  optional URL and question flag are.
\<close>

theorem create_draft_payload:
  assumes tok: "get_auth_token forum w = Inr token" and t: "truthy token"
    and u: "get_forum_url forum = Inr u"
  shows "\<exists>vars.
     posted (snd (create_draft_post title md forum url_opt question w)) =
       posted w @ [\<lparr>req_url = u,
                    req_json = JObj [(''query'', JStr CreatePost_mutation), (''variables'', vars)],
                    req_cookies = [(''loginToken'', token)]\<rparr>] \<and>
     at_path vars [''data'', ''draft''] = Inr (JBool True) \<and>
     at_path vars [''data'', ''submitToFrontpage''] = Inr (JBool True) \<and>
     at_path vars [''data'', ''contents'', ''originalContents'', ''type''] = Inr (JStr ''markdown'') \<and>
     at_path vars [''data'', ''contents'', ''originalContents'', ''data''] = Inr (JStr md)"
proof -
  obtain kvs where v: "create_draft_variables title md url_opt question = JObj [(''data'', JObj kvs)]"
    and d: "map_of kvs ''draft'' = Some (JBool True)"
           "map_of kvs ''submitToFrontpage'' = Some (JBool True)"
           "map_of kvs ''contents'' = Some (JObj [(''originalContents'',
             JObj [(''type'', JStr ''markdown''), (''data'', JStr md)])])"
    using create_draft_variables_data by blast
  have "posted (snd (create_draft_post title md forum url_opt question w)) =
       posted w @ [\<lparr>req_url = u,
                    req_json = JObj [(''query'', JStr CreatePost_mutation),
                                     (''variables'', JObj [(''data'', JObj kvs)])],
                    req_cookies = [(''loginToken'', token)]\<rparr>]"
    unfolding snd_create_draft_post v
    by (simp add: graphql_query_authenticated_def tok t u post_request_def Let_def
          build_payload_def split: option.splits)
  then show ?thesis using d
    by (intro exI [of _ "JObj [(''data'', JObj kvs)]"]) simp
qed

theorem create_draft_payload_witness:
  "\<exists>vars.
     posted (snd (create_draft_post ''T'' ''C'' ''lw'' None False
        \<lparr>config_file = Content (JObj [(''auth'', JObj [(''lesswrong'', JStr ''tok'')])]),
         network = (\<lambda>r. None), posted = []\<rparr>)) =
       [\<lparr>req_url = ''https://www.lesswrong.com/graphql'',
         req_json = JObj [(''query'', JStr CreatePost_mutation), (''variables'', vars)],
         req_cookies = [(''loginToken'', JStr ''tok'')]\<rparr>] \<and>
     at_path vars [''data'', ''draft''] = Inr (JBool True) \<and>
     at_path vars [''data'', ''submitToFrontpage''] = Inr (JBool True) \<and>
     at_path vars [''data'', ''contents'', ''originalContents'', ''type''] = Inr (JStr ''markdown'') \<and>
     at_path vars [''data'', ''contents'', ''originalContents'', ''data''] = Inr (JStr ''C'')"
proof -
  have r: "resolve_forum ''lw'' = Inr ''lesswrong''" by code_simp
  have u: "get_forum_url ''lw'' = Inr ''https://www.lesswrong.com/graphql''" by code_simp
  have tok: "get_auth_token ''lw''
        \<lparr>config_file = Content (JObj [(''auth'', JObj [(''lesswrong'', JStr ''tok'')])]),
         network = (\<lambda>r. None), posted = []\<rparr> = Inr (JStr ''tok'')"
    by (simp add: get_auth_token_def load_config_def r)
  have t: "truthy (JStr ''tok'')" by simp
  from create_draft_payload [OF tok t u, of "''T''" "''C''" None False]
  show ?thesis by simp
qed

section \<open>Properties of tag search\<close>






section \<open>Properties of the date filter\<close>

lemma filter_since_filter:
  assumes "\<forall>p\<in>set items. \<exists>dt. posted_at fromiso p = Inr dt \<and> aware dt = aware cutoff"
  shows "filter_since fromiso cutoff items =
     Inr (filter (\<lambda>p. case posted_at fromiso p of
                          Inr dt \<Rightarrow> instant cutoff \<le> instant dt
                        | Inl e \<Rightarrow> False) items)"
  using assms
  by (induction items) (auto simp: dt_ge_def)

lemma fetch_since_filter:
  assumes "\<forall>p\<in>set items. \<exists>dt. posted_at fromiso p = Inr dt \<and> aware dt = aware cutoff"
    and "graphql_query query variables forum w = (Inr data, w')"
    and "results_of data field = Inr (JArr items)"
  shows "fetch_since fromiso query variables field (Some cutoff) forum w =
     (Inr (JArr (filter (\<lambda>p. case posted_at fromiso p of
                          Inr dt \<Rightarrow> instant cutoff \<le> instant dt
                        | Inl e \<Rightarrow> False) items)), w')"
  using assms(2,3)
  by (simp add: fetch_since_def since_filter_def filter_since_filter [OF assms(1)])

text \<open>
  Claim C6. The date filter is inclusive at the boundary. When the fetch succeeds with a
  list of items whose \<^verbatim>\<open>postedAt\<close> parses (to a time of the same kind as the cutoff),
  \<open>get_user_posts\<close>, \<open>get_user_comments\<close> and \<open>get_posts_by_tag\<close> each return exactly the
  items whose time is at or after the cutoff, in order; an item whose time is the cutoff
  itself is among them.
\<close>

theorem date_filter_inclusive:
  assumes wf: "\<forall>p\<in>set items. \<exists>dt. posted_at fromiso p = Inr dt \<and> aware dt = aware cutoff"
  shows
    "(graphql_query GetUserPosts_query
        (JObj [(''userId'', user_id), (''limit'', JNum limit)]) forum w = (Inr data, w') \<and>
      results_of data ''posts'' = Inr (JArr items) \<longrightarrow>
      get_user_posts fromiso user_id (Some cutoff) limit forum w =
        (Inr (JArr (filter (\<lambda>p. case posted_at fromiso p of
                                   Inr dt \<Rightarrow> instant cutoff \<le> instant dt
                                 | Inl e \<Rightarrow> False) items)), w')) \<and>
     (graphql_query GetUserComments_query
        (JObj [(''userId'', user_id), (''limit'', JNum limit)]) forum w = (Inr data, w') \<and>
      results_of data ''comments'' = Inr (JArr items) \<longrightarrow>
      get_user_comments fromiso user_id (Some cutoff) limit forum w =
        (Inr (JArr (filter (\<lambda>p. case posted_at fromiso p of
                                   Inr dt \<Rightarrow> instant cutoff \<le> instant dt
                                 | Inl e \<Rightarrow> False) items)), w')) \<and>
     (graphql_query GetTagPosts_query
        (JObj [(''tagId'', tag_id), (''limit'', JNum limit)]) forum w = (Inr data, w') \<and>
      results_of data ''posts'' = Inr (JArr items) \<longrightarrow>
      get_posts_by_tag fromiso tag_id (Some cutoff) limit forum w =
        (Inr (JArr (filter (\<lambda>p. case posted_at fromiso p of
                                   Inr dt \<Rightarrow> instant cutoff \<le> instant dt
                                 | Inl e \<Rightarrow> False) items)), w')) \<and>
     (\<forall>p\<in>set items. posted_at fromiso p = Inr cutoff \<longrightarrow>
        p \<in> set (filter (\<lambda>p. case posted_at fromiso p of
                                   Inr dt \<Rightarrow> instant cutoff \<le> instant dt
                                 | Inl e \<Rightarrow> False) items))"
  using fetch_since_filter [OF wf]
  by (simp add: get_user_posts_def get_user_comments_def get_posts_by_tag_def)

theorem date_filter_inclusive_witness:
  "(let fromiso = (\<lambda>s. if s = ''2024-01-08T00:00:00+00:00''
                  then Some \<lparr>instant = 1704672000000000, aware = True\<rparr>
                  else if s = ''2024-01-07T23:59:59+00:00''
                  then Some \<lparr>instant = 1704671999000000, aware = True\<rparr>
                  else None);
        cutoff = \<lparr>instant = 1704672000000000, aware = True\<rparr>;
        w = \<lparr>config_file = Missing,
        network = (\<lambda>r. Some \<lparr>status_code = 200,
          json_body = Some (JObj [(''data'', JObj
            [(''posts'', JObj [(''results'', JArr
               [JObj [(''_id'', JStr ''a''), (''postedAt'', JStr ''2024-01-08T00:00:00Z'')],
                JObj [(''_id'', JStr ''b''), (''postedAt'', JStr ''2024-01-07T23:59:59Z'')]])]),
             (''comments'', JObj [(''results'', JArr
               [JObj [(''_id'', JStr ''a''), (''postedAt'', JStr ''2024-01-08T00:00:00Z'')],
                JObj [(''_id'', JStr ''b''), (''postedAt'', JStr ''2024-01-07T23:59:59Z'')]])])])])\<rparr>),
        posted = []\<rparr>;
        kept = Inr (JArr [JObj [(''_id'', JStr ''a''), (''postedAt'', JStr ''2024-01-08T00:00:00Z'')]])
    in fst (get_user_posts fromiso (JStr ''u'') (Some cutoff) 50 ''lw'' w) = kept \<and>
       fst (get_user_comments fromiso (JStr ''u'') (Some cutoff) 100 ''lw'' w) = kept \<and>
       fst (get_posts_by_tag fromiso (JStr ''t'') (Some cutoff) 50 ''lw'' w) = kept)"
proof -
  let ?f = "(\<lambda>s. if s = ''2024-01-08T00:00:00+00:00''
                  then Some \<lparr>instant = 1704672000000000, aware = True\<rparr>
                  else if s = ''2024-01-07T23:59:59+00:00''
                  then Some \<lparr>instant = 1704671999000000, aware = True\<rparr>
                  else None)"
  let ?c = "\<lparr>instant = 1704672000000000, aware = True\<rparr>"
  let ?w = "\<lparr>config_file = Missing,
        network = (\<lambda>r. Some \<lparr>status_code = 200,
          json_body = Some (JObj [(''data'', JObj
            [(''posts'', JObj [(''results'', JArr
               [JObj [(''_id'', JStr ''a''), (''postedAt'', JStr ''2024-01-08T00:00:00Z'')],
                JObj [(''_id'', JStr ''b''), (''postedAt'', JStr ''2024-01-07T23:59:59Z'')]])]),
             (''comments'', JObj [(''results'', JArr
               [JObj [(''_id'', JStr ''a''), (''postedAt'', JStr ''2024-01-08T00:00:00Z'')],
                JObj [(''_id'', JStr ''b''), (''postedAt'', JStr ''2024-01-07T23:59:59Z'')]])])])])\<rparr>),
        posted = []\<rparr>"
  let ?a = "JObj [(''_id'', JStr ''a''), (''postedAt'', JStr ''2024-01-08T00:00:00Z'')]"
  let ?b = "JObj [(''_id'', JStr ''b''), (''postedAt'', JStr ''2024-01-07T23:59:59Z'')]"
  let ?d = "JObj [(''posts'', JObj [(''results'', JArr [?a, ?b])]),
                  (''comments'', JObj [(''results'', JArr [?a, ?b])])]"
  have u: "get_forum_url ''lw'' = Inr ''https://www.lesswrong.com/graphql''" by code_simp
  have pa: "posted_at ?f ?a = Inr ?c"
    by (simp add: posted_at_def replace_Z_def)
  have pb: "posted_at ?f ?b = Inr \<lparr>instant = 1704671999000000, aware = True\<rparr>"
    by (simp add: posted_at_def replace_Z_def)
  have wf: "\<forall>p\<in>set [?a, ?b]. \<exists>dt. posted_at ?f p = Inr dt \<and> aware dt = aware ?c"
    using pa pb by simp
  have q: "fst (graphql_query query variables ''lw'' ?w) = Inr ?d" for query variables
    by (simp add: graphql_query_def u post_request_def Let_def unwrap_response_def)
  have r: "results_of ?d ''posts'' = Inr (JArr [?a, ?b])"
          "results_of ?d ''comments'' = Inr (JArr [?a, ?b])"
    by (simp_all add: results_of_def)
  obtain w1 where q1: "graphql_query GetUserPosts_query
        (JObj [(''userId'', JStr ''u''), (''limit'', JNum 50)]) ''lw'' ?w = (Inr ?d, w1)"
    using q [of GetUserPosts_query "JObj [(''userId'', JStr ''u''), (''limit'', JNum 50)]"]
    by (metis prod.collapse)
  obtain w2 where q2: "graphql_query GetUserComments_query
        (JObj [(''userId'', JStr ''u''), (''limit'', JNum 100)]) ''lw'' ?w = (Inr ?d, w2)"
    using q [of GetUserComments_query "JObj [(''userId'', JStr ''u''), (''limit'', JNum 100)]"]
    by (metis prod.collapse)
  obtain w3 where q3: "graphql_query GetTagPosts_query
        (JObj [(''tagId'', JStr ''t''), (''limit'', JNum 50)]) ''lw'' ?w = (Inr ?d, w3)"
    using q [of GetTagPosts_query "JObj [(''tagId'', JStr ''t''), (''limit'', JNum 50)]"]
    by (metis prod.collapse)
  have k: "filter (\<lambda>p. case posted_at ?f p of
                          Inr dt \<Rightarrow> instant ?c \<le> instant dt
                        | Inl e \<Rightarrow> False) [?a, ?b] = [?a]"
    using pa pb by simp
  have 1: "get_user_posts ?f (JStr ''u'') (Some ?c) 50 ''lw'' ?w = (Inr (JArr [?a]), w1)"
    using date_filter_inclusive [OF wf, where user_id = "JStr ''u''" and limit = 50
        and forum = "''lw''" and w = ?w and data = ?d and w' = w1] q1 r k
    by simp
  have 2: "get_user_comments ?f (JStr ''u'') (Some ?c) 100 ''lw'' ?w = (Inr (JArr [?a]), w2)"
    using date_filter_inclusive [OF wf, where user_id = "JStr ''u''" and limit = 100
        and forum = "''lw''" and w = ?w and data = ?d and w' = w2] q2 r k
    by simp
  have 3: "get_posts_by_tag ?f (JStr ''t'') (Some ?c) 50 ''lw'' ?w = (Inr (JArr [?a]), w3)"
    using date_filter_inclusive [OF wf, where tag_id = "JStr ''t''" and limit = 50
        and forum = "''lw''" and w = ?w and data = ?d and w' = w3] q3 r k
    by simp
  show ?thesis by (simp add: Let_def 1 2 3)
qed

section \<open>Properties of post lookup\<close>

text \<open>
  The URL pattern: what \<open>url_match\<close> returns is the \<^verbatim>\<open>id\<close> of a segment
  \<^verbatim>\<open>/posts/id/\<close> of the string, and the segment at the first \<^verbatim>\<open>/posts/\<close> of the
  string is the one returned.
\<close>

lemma not_alnum_slash [simp]: "\<not> is_alnum CHR ''/''"
  by (simp add: is_alnum_def)

lemma match_here_segment:
  assumes "g \<noteq> []" and "list_all is_alnum g"
  shows "match_here (''/posts/'' @ g @ CHR ''/'' # rest) = Some g"
proof -
  have a: "\<And>x. x \<in> set g \<Longrightarrow> is_alnum x" using assms(2) by (simp add: list_all_iff)
  have t: "takeWhile is_alnum (g @ CHR ''/'' # rest) = g"
    using a by simp
  have d: "dropWhile is_alnum (g @ CHR ''/'' # rest) = CHR ''/'' # rest"
    using a by simp
  show ?thesis using assms(1) by (simp add: match_here_def t d)
qed

lemma match_here_sound:
  assumes "match_here s = Some g"
  shows "\<exists>rest. s = ''/posts/'' @ g @ CHR ''/'' # rest \<and> g \<noteq> [] \<and> list_all is_alnum g"
proof -
  from assms have p: "prefix ''/posts/'' s"
    by (auto simp: match_here_def split: if_splits)
  then have s: "s = ''/posts/'' @ drop 7 s"
    by (auto simp: prefix_def)
  from assms p obtain c r where d: "dropWhile is_alnum (drop 7 s) = c # r"
    and g: "g = takeWhile is_alnum (drop 7 s)" and c: "c = CHR ''/''" and n: "g \<noteq> []"
    by (auto simp: match_here_def Let_def split: list.splits if_splits)
  have "drop 7 s = g @ CHR ''/'' # r"
    using takeWhile_dropWhile_id [of is_alnum "drop 7 s"] d g c by simp
  moreover have "list_all is_alnum g"
    unfolding g list_all_iff by (auto dest: set_takeWhileD)
  ultimately show ?thesis using s n by metis
qed

lemma url_match_sound:
  "url_match s = Some g \<Longrightarrow>
     \<exists>pre rest. s = pre @ ''/posts/'' @ g @ CHR ''/'' # rest \<and> g \<noteq> [] \<and> list_all is_alnum g"
proof (induction s)
  case Nil
  then show ?case by simp
next
  case (Cons c cs)
  show ?case
  proof (cases "match_here (c # cs)")
    case (Some h)
    with Cons.prems have "h = g" by simp
    with Some match_here_sound [of "c # cs" g] show ?thesis
      by (metis append_Nil)
  next
    case None
    with Cons.prems have "url_match cs = Some g" by simp
    from Cons.IH [OF this] obtain pre rest where
      "cs = pre @ ''/posts/'' @ g @ CHR ''/'' # rest" "g \<noteq> []" "list_all is_alnum g"
      by blast
    then have "c # cs = (c # pre) @ ''/posts/'' @ g @ CHR ''/'' # rest" by simp
    with \<open>g \<noteq> []\<close> \<open>list_all is_alnum g\<close> show ?thesis by blast
  qed
qed

lemma match_here_no_prefix: "\<not> prefix ''/posts/'' s \<Longrightarrow> match_here s = None"
  by (simp add: match_here_def)

lemma url_match_no_literal: "\<not> sublist ''/posts/'' s \<Longrightarrow> url_match s = None"
proof (induction s)
  case Nil
  then show ?case by simp
next
  case (Cons c cs)
  then have "\<not> prefix ''/posts/'' (c # cs)" and "\<not> sublist ''/posts/'' cs"
    by (simp_all add: sublist_Cons_right)
  with Cons.IH show ?case by (simp add: match_here_no_prefix)
qed

lemma url_match_here: "match_here s = Some g \<Longrightarrow> url_match s = Some g"
  by (cases s) (simp_all add: match_here_def)

lemma prefix_cut:
  assumes "prefix p (xs @ zs)" and "length p \<le> length xs"
  shows "prefix p xs"
  using assms(1) prefixI [OF refl, of xs zs] assms(2) by (rule prefix_length_prefix)

lemma url_match_first:
  assumes "\<not> sublist ''/posts/'' (pre @ ''/posts'')" and "g \<noteq> []" and "list_all is_alnum g"
  shows "url_match (pre @ ''/posts/'' @ g @ CHR ''/'' # rest) = Some g"
  using assms(1)
proof (induction pre)
  case Nil
  have "match_here ([] @ ''/posts/'' @ g @ CHR ''/'' # rest) = Some g"
    using match_here_segment [OF assms(2,3)] by simp
  then show ?case by (rule url_match_here)
next
  case (Cons c pre)
  from Cons.prems have np: "\<not> prefix ''/posts/'' ((c # pre) @ ''/posts'')"
    and ns: "\<not> sublist ''/posts/'' (pre @ ''/posts'')"
    by (simp_all add: sublist_Cons_right)
  have e: "(c # pre) @ ''/posts/'' @ g @ CHR ''/'' # rest =
           ((c # pre) @ ''/posts'') @ CHR ''/'' # g @ CHR ''/'' # rest"
    by simp
  have "\<not> prefix ''/posts/'' ((c # pre) @ ''/posts/'' @ g @ CHR ''/'' # rest)"
  proof
    assume "prefix ''/posts/'' ((c # pre) @ ''/posts/'' @ g @ CHR ''/'' # rest)"
    then have "prefix ''/posts/'' (((c # pre) @ ''/posts'') @ CHR ''/'' # g @ CHR ''/'' # rest)"
      unfolding e .
    moreover have "length ''/posts/'' \<le> length ((c # pre) @ ''/posts'')" by simp
    ultimately have "prefix ''/posts/'' ((c # pre) @ ''/posts'')"
      by (rule prefix_cut)
    with np show False by blast
  qed
  then have "match_here ((c # pre) @ ''/posts/'' @ g @ CHR ''/'' # rest) = None"
    by (rule match_here_no_prefix)
  then show ?case using Cons.IH [OF ns] by simp
qed


lemma alnum_no_literal:
  assumes "list_all is_alnum s"
  shows "\<not> sublist ''/posts/'' s"
proof
  assume "sublist ''/posts/'' s"
  then have "set ''/posts/'' \<subseteq> set s" by (rule set_mono_sublist)
  then have "CHR ''/'' \<in> set s" by simp
  with assms show False by (auto simp: list_all_iff)
qed

lemma post_id_choice:
  assumes "length s = 17" and "list_all is_alnum s"
  shows "url_match s = None \<and> looks_like_post_id s"
  using assms url_match_no_literal [OF alnum_no_literal [OF assms(2)]]
  by (simp add: looks_like_post_id_def)

lemma posted_graphql_query:
  assumes "get_forum_url forum = Inr u"
  shows "posted (snd (graphql_query query variables forum w)) =
         posted w @ [\<lparr>req_url = u, req_json = build_payload query variables, req_cookies = []\<rparr>]"
  by (simp add: graphql_query_def assms post_request_def Let_def split: option.splits)

lemma snd_lookup_by_id:
  "snd (lookup_by_id pid forum w) =
   snd (graphql_query GetPostById_query (JObj [(''documentId'', JStr pid)]) forum w)"
  by (auto simp: lookup_by_id_def split: prod.splits sum.splits)

lemma snd_search_by_slug:
  "snd (search_by_slug identifier forum w) =
   snd (graphql_query SearchBySlug_query (JObj [(''limit'', JNum 1000)]) forum w)"
  by (auto simp: search_by_slug_def Let_def split: prod.splits sum.splits option.splits)

lemma posted_lookup_by_id:
  assumes "get_forum_url forum = Inr u"
  shows "posted (snd (lookup_by_id pid forum w)) =
         posted w @ [\<lparr>req_url = u,
            req_json = build_payload GetPostById_query (JObj [(''documentId'', JStr pid)]),
            req_cookies = []\<rparr>]"
  unfolding snd_lookup_by_id by (rule posted_graphql_query [OF assms])

lemma posted_search_by_slug:
  assumes "get_forum_url forum = Inr u"
  shows "posted (snd (search_by_slug identifier forum w)) =
         posted w @ [\<lparr>req_url = u,
            req_json = build_payload SearchBySlug_query (JObj [(''limit'', JNum 1000)]),
            req_cookies = []\<rparr>]"
  unfolding snd_search_by_slug by (rule posted_graphql_query [OF assms])

lemma get_post_by_slug_with_id:
  assumes "url_match identifier = Some pid \<or>
           (url_match identifier = None \<and> looks_like_post_id identifier \<and> pid = identifier)"
    and "pid \<noteq> []"
  shows "get_post_by_slug identifier forum w =
     (case lookup_by_id pid forum w of
        (Inl e, w') \<Rightarrow> (Inl e, w')
      | (Inr post, w') \<Rightarrow>
          if truthy post then (Inr post, w') else search_by_slug identifier forum w')"
  using assms by (auto simp: get_post_by_slug_def)

lemma get_post_by_slug_id_request_first:
  assumes id: "url_match identifier = Some pid \<or>
           (url_match identifier = None \<and> looks_like_post_id identifier \<and> pid = identifier)"
    and ne: "pid \<noteq> []"
    and u: "get_forum_url forum = Inr u"
  shows "take (Suc (length (posted w))) (posted (snd (get_post_by_slug identifier forum w))) =
         posted w @ [\<lparr>req_url = u,
            req_json = build_payload GetPostById_query (JObj [(''documentId'', JStr pid)]),
            req_cookies = []\<rparr>]"
proof -
  obtain r w' where l: "lookup_by_id pid forum w = (r, w')" by (cases "lookup_by_id pid forum w")
  with posted_lookup_by_id [OF u, of pid w]
  have p: "posted w' = posted w @ [\<lparr>req_url = u,
            req_json = build_payload GetPostById_query (JObj [(''documentId'', JStr pid)]),
            req_cookies = []\<rparr>]"
    by simp
  show ?thesis
    unfolding get_post_by_slug_with_id [OF id ne] l
    using p posted_search_by_slug [OF u, of "identifier" "w'"]
    by (cases r) simp_all
qed

lemma find_slug_find:
  assumes "\<forall>p\<in>set ps. \<exists>kvs. p = JObj kvs"
  shows "find_slug slug ps = Inr (find (\<lambda>p. py_get p ''slug'' JNull = Inr (JStr slug)) ps)"
  using assms by (induction ps) (auto split: option.splits)

lemma get_post_by_slug_scan:
  assumes "url_match identifier = None" and "\<not> looks_like_post_id identifier"
    and "graphql_query SearchBySlug_query (JObj [(''limit'', JNum 1000)]) forum w = (Inr data, w')"
    and "results_of data ''posts'' = Inr (JArr ps)"
    and "\<forall>p\<in>set ps. \<exists>kvs. p = JObj kvs"
  shows "get_post_by_slug identifier forum w =
     (case find (\<lambda>p. py_get p ''slug'' JNull =
                        Inr (JStr (last (split_char CHR ''/'' identifier)))) ps of
        Some post \<Rightarrow> (Inr post, w')
      | None \<Rightarrow> (Inl (Exception (''Post not found: '' @ identifier)), w'))"
  using assms(1-4)
  by (simp add: get_post_by_slug_def search_by_slug_def Let_def find_slug_find [OF assms(5)]
        split: option.splits)

lemma get_post_by_slug_url_segment:
  assumes "\<not> sublist ''/posts/'' (pre @ ''/posts'')" and "g \<noteq> []" and "list_all is_alnum g"
    and "get_forum_url forum = Inr u"
  shows "take (Suc (length (posted w)))
           (posted (snd (get_post_by_slug (pre @ ''/posts/'' @ g @ CHR ''/'' # rest) forum w))) =
         posted w @ [\<lparr>req_url = u,
            req_json = build_payload GetPostById_query (JObj [(''documentId'', JStr g)]),
            req_cookies = []\<rparr>]"
  using url_match_first [OF assms(1-3), of rest] assms(2,4)
  by (intro get_post_by_slug_id_request_first) simp_all

lemma get_post_by_slug_raw_id:
  assumes "length s = 17" and "list_all is_alnum s" and "get_forum_url forum = Inr u"
  shows "take (Suc (length (posted w))) (posted (snd (get_post_by_slug s forum w))) =
         posted w @ [\<lparr>req_url = u,
            req_json = build_payload GetPostById_query (JObj [(''documentId'', JStr s)]),
            req_cookies = []\<rparr>]"
proof -
  from assms(1) have "s \<noteq> []" by auto
  with post_id_choice [OF assms(1,2)] assms(3) show ?thesis
    by (intro get_post_by_slug_id_request_first) simp_all
qed

text \<open>
  Claim C5 holds in its cases (1) and (2) (\<open>get_post_by_slug_url_segment\<close>,
  \<open>get_post_by_slug_raw_id\<close>) and in case (3) for every identifier the two patterns reject
  (\<open>get_post_by_slug_scan\<close>). It fails at an identifier that is not a 17-character
  alphanumeric string and has no \<^verbatim>\<open>/posts/id/\<close> segment: seventeen letters followed by a
  newline. The pattern with \<^verbatim>\<open>$\<close> accepts it, the 18-character string is looked up by
  ID, and when that query gives a post it is returned: the only request is the query by ID,
  no posts are fetched and no slug is compared.
\<close>

theorem get_post_by_slug_trailing_newline:
  "get_post_by_slug ''abcdefghijklmnopq\<newline>'' ''lesswrong''
     \<lparr>config_file = Missing,
      network = (\<lambda>r. Some \<lparr>status_code = 200,
         json_body = Some (JObj [(''data'', JObj [(''post'', JObj [(''result'',
           JObj [(''_id'', JStr ''x''), (''slug'', JStr ''some-post'')])])])])\<rparr>),
      posted = []\<rparr> =
   (Inr (JObj [(''_id'', JStr ''x''), (''slug'', JStr ''some-post'')]),
    \<lparr>config_file = Missing,
      network = (\<lambda>r. Some \<lparr>status_code = 200,
         json_body = Some (JObj [(''data'', JObj [(''post'', JObj [(''result'',
           JObj [(''_id'', JStr ''x''), (''slug'', JStr ''some-post'')])])])])\<rparr>),
      posted = [\<lparr>req_url = ''https://www.lesswrong.com/graphql'',
                 req_json = JObj [(''query'', JStr GetPostById_query),
                   (''variables'', JObj [(''documentId'',
                       JStr ''abcdefghijklmnopq\<newline>'')])],
                 req_cookies = []\<rparr>]\<rparr>)"
proof -
  have u: "get_forum_url ''lesswrong'' = Inr ''https://www.lesswrong.com/graphql''"
    by code_simp
  have m: "url_match ''abcdefghijklmnopq\<newline>'' = None"
    by (rule url_match_no_literal) code_simp
  have l: "looks_like_post_id ''abcdefghijklmnopq\<newline>''"
    by code_simp
  have i: "url_match ''abcdefghijklmnopq\<newline>'' = Some ''abcdefghijklmnopq\<newline>'' \<or>
           (url_match ''abcdefghijklmnopq\<newline>'' = None \<and>
            looks_like_post_id ''abcdefghijklmnopq\<newline>'' \<and>
            ''abcdefghijklmnopq\<newline>'' = ''abcdefghijklmnopq\<newline>'')"
    using m l by blast
  have n: "''abcdefghijklmnopq\<newline>'' \<noteq> []" by simp
  show ?thesis
    unfolding get_post_by_slug_with_id [OF i n]
    by (simp add: lookup_by_id_def graphql_query_def u
          post_request_def Let_def unwrap_response_def build_payload_def)
qed

end
